theory Spec2Isabelle
  imports Main "HOL-Library.AList"
begin

section \<open>JavaScript values and strings\<close>

text \<open>
  The server (\<^verbatim>\<open>src/server.js\<close>) is an Express application with four handlers. Each
  handler is embedded as a function from the request and the environment it observes
  (clock, file system, external providers) to the response and the new state of the
  leads file.

  Scope of the embedding. A JavaScript string is a sequence of UTF-16 code units; the
  model covers the strings whose code units are below 256 and writes such a code unit as
  a HOL \<open>char\<close>. Requests are handled one at a time: the interleaving of concurrent
  requests is not modelled. \<^verbatim>\<open>req.body\<close> is an object, as \<^verbatim>\<open>express.json()\<close> leaves it;
  the lines written to the console are left out. What \<^verbatim>\<open>JSON.stringify\<close> writes,
  \<^verbatim>\<open>JSON.parse\<close> reads back unchanged. A count is a natural number (the doubles of
  JavaScript are exact far beyond any number of leads).

  The values that reach the handlers come out of \<^verbatim>\<open>JSON.parse\<close>: \<open>JUndefined\<close> is a
  property that is absent, \<open>JStr\<close> a string, and \<open>JOther t s\<close> any other value (number,
  boolean, array, object), of which the handlers observe only the truthiness \<open>t\<close> and
  the string conversion \<open>s\<close> (\<open>None\<close> when \<^verbatim>\<open>String(v)\<close> throws).
\<close>

datatype jsval = JUndefined | JNull | JStr string | JOther bool "string option"

datatype error = TypeError | IOError | SyntaxError

fun truthy :: "jsval \<Rightarrow> bool" where
  "truthy JUndefined = False"
| "truthy JNull = False"
| "truthy (JStr s) = (s \<noteq> [])"
| "truthy (JOther t s) = t"

text \<open>\<^verbatim>\<open>String(v)\<close>, the conversion \<^verbatim>\<open>RegExp.prototype.test\<close> and property keys apply.\<close>

fun toString :: "jsval \<Rightarrow> error + string" where
  "toString JUndefined = Inr ''undefined''"
| "toString JNull = Inr ''null''"
| "toString (JStr s) = Inr s"
| "toString (JOther t None) = Inl TypeError"
| "toString (JOther t (Some s)) = Inr s"

text \<open>
  White space and line terminators of ECMAScript below code unit 256: TAB, LF, VT, FF,
  CR, SPACE and NO-BREAK SPACE. It is the set \<^verbatim>\<open>\s\<close> of a regular expression and the set
  \<^verbatim>\<open>String.prototype.trim\<close> strips.
\<close>

definition is_space :: "char \<Rightarrow> bool" where
  "is_space c = (c \<in> set [CHR 0x09, CHR 0x0A, CHR 0x0B, CHR 0x0C, CHR 0x0D, CHR 0x20, CHR 0xA0])"

definition trim :: "string \<Rightarrow> string" where
  "trim s = rev (dropWhile is_space (rev (dropWhile is_space s)))"

text \<open>
  \<^verbatim>\<open>String.prototype.toLowerCase\<close> on code units below 256: A-Z and the capital letters
  U+00C0 to U+00DE (the multiplication sign U+00D7 apart) move up by 32.
\<close>

definition lower_char :: "char \<Rightarrow> char" where
  "lower_char c =
     (let n = (of_char c :: nat)
      in if (65 \<le> n \<and> n \<le> 90) \<or> (192 \<le> n \<and> n \<le> 222 \<and> n \<noteq> 215)
         then char_of (n + 32) else c)"

definition toLowerCase :: "string \<Rightarrow> string" where
  "toLowerCase s = map lower_char s"

text \<open>A method call \<^verbatim>\<open>v.trim()\<close>: a \<^verbatim>\<open>TypeError\<close> unless \<open>v\<close> is a string.\<close>

fun call_trim :: "jsval \<Rightarrow> error + string" where
  "call_trim (JStr s) = Inr (trim s)"
| "call_trim v = Inl TypeError"

section \<open>The chat handler\<close>

text \<open>
  \<^verbatim>\<open>AZURE_CONFIG\<close>: each entry is an environment variable, a string or undefined.
\<close>

record config =
  endpoint :: "string option"
  apiKey :: "string option"
  deploymentName :: "string option"
  searchEndpoint :: "string option"
  searchKey :: "string option"
  searchIndex :: "string option"

definition env_truthy :: "string option \<Rightarrow> bool" where
  "env_truthy v = (case v of None \<Rightarrow> False | Some s \<Rightarrow> s \<noteq> [])"

text \<open>
  The two providers. A search call either throws (network error, status outside 2xx,
  timeout, a body without \<^verbatim>\<open>data\<close>) or yields \<^verbatim>\<open>searchResponse.data.value\<close>:
  \<open>SearchValue None\<close> when that is falsy or has no positive length, otherwise the
  results, each \<open>Some\<close> of its \<^verbatim>\<open>content\<close> property, or \<open>None\<close> for a result
  that is \<^verbatim>\<open>null\<close>. A completion call yields
  \<^verbatim>\<open>response.data.choices[0].message.content\<close>, or \<open>None\<close> when the call or that
  property access throws.
\<close>

datatype search_outcome = SearchThrows | SearchValue "jsval option list option"

record providers =
  search :: "string \<Rightarrow> search_outcome"
  complete :: "string \<Rightarrow> string \<Rightarrow> jsval option"

datatype call = SearchCall string | CompletionCall string string

datatype chat_body = ChatResponse jsval | ChatError string

text \<open>\<^verbatim>\<open>Array.prototype.join\<close>: undefined and null elements are written as the empty string.\<close>

fun join_item :: "jsval \<Rightarrow> error + string" where
  "join_item JUndefined = Inr []"
| "join_item JNull = Inr []"
| "join_item v = toString v"

fun join :: "string \<Rightarrow> jsval list \<Rightarrow> error + string" where
  "join sep [] = Inr []"
| "join sep [v] = join_item v"
| "join sep (v # vs) =
     (case join_item v of
        Inl e \<Rightarrow> Inl e
      | Inr s \<Rightarrow> (case join sep vs of Inl e \<Rightarrow> Inl e | Inr r \<Rightarrow> Inr (s @ sep @ r)))"

text \<open>\<^verbatim>\<open>value.map(result => result.content)\<close>: reading a property of null throws.\<close>

fun contents :: "jsval option list \<Rightarrow> error + jsval list" where
  "contents [] = Inr []"
| "contents (None # rs) = Inl TypeError"
| "contents (Some c # rs) = (case contents rs of Inl e \<Rightarrow> Inl e | Inr cs \<Rightarrow> Inr (c # cs))"

text \<open>
  Lines 126 to 152: \<open>searchResults\<close> starts empty, and the inner \<^verbatim>\<open>try\<close> swallows
  whatever the search block throws.
\<close>

definition searchResults_of :: "search_outcome \<Rightarrow> string" where
  "searchResults_of out =
     (case out of
        SearchThrows \<Rightarrow> []
      | SearchValue None \<Rightarrow> []
      | SearchValue (Some rs) \<Rightarrow>
          (if length rs > 0
           then (case contents rs of
                   Inl e \<Rightarrow> []
                 | Inr cs \<Rightarrow> (case join [CHR 0x0A, CHR 0x0A] cs of Inl e \<Rightarrow> [] | Inr s \<Rightarrow> s))
           else []))"

definition nl :: string where
  "nl = [CHR 0x0A]"

definition indent :: string where
  "indent = ''        ''"

text \<open>The template literal of lines 155 to 167.\<close>

definition systemMessage :: "string \<Rightarrow> string" where
  "systemMessage searchResults =
     ''You are a helpful AI assistant for GradientM, a leading technology consulting firm specializing in digital transformation. '' @ nl
     @ indent @ nl
     @ ''GradientM Services:'' @ nl
     @ indent @ ''- Cloud & Infrastructure (AWS, Azure, GCP)'' @ nl
     @ indent @ ''- Digital Transformation'' @ nl
     @ indent @ ''- Data Analytics & AI'' @ nl
     @ indent @ ''- Cybersecurity'' @ nl
     @ indent @ ''- Software Development'' @ nl
     @ indent @ ''- IT Consulting'' @ nl
     @ indent @ nl
     @ indent @ (if searchResults \<noteq> [] then ''Additional Context: '' @ searchResults else []) @ nl
     @ indent @ nl
     @ indent @ ''Provide helpful, professional responses about GradientM'' @ [CHR 0x27] @ ''s services. If asked about services not offered, politely redirect to available services.''"

definition apology :: string where
  "apology = ''I apologize, but I'' @ [CHR 0x27] @ ''m having trouble connecting to our AI service. Please try again or contact our support team directly.''"

text \<open>
  \<^verbatim>\<open>POST /api/chat\<close>. The result is the status, the body and the outbound calls made, in
  order.
\<close>

definition chat :: "config \<Rightarrow> providers \<Rightarrow> jsval \<Rightarrow> (nat \<times> chat_body) \<times> call list" where
  "chat cfg p message =
     (if \<not> truthy message then ((400, ChatError ''Message is required''), [])
      else (case message of
              JStr m \<Rightarrow>
                (if trim (toLowerCase m) = ''hi'' then ((200, ChatResponse (JStr ''gpt-40'')), [])
                 else
                   (let configured = (env_truthy (searchEndpoint cfg) \<and> env_truthy (searchKey cfg));
                        searchResults = (if configured then searchResults_of (search p m) else []);
                        calls = (if configured then [SearchCall m] else [])
                          @ [CompletionCall (systemMessage searchResults) m]
                    in (case complete p (systemMessage searchResults) m of
                          None \<Rightarrow> ((500, ChatError apology), calls)
                        | Some aiResponse \<Rightarrow> ((200, ChatResponse aiResponse), calls))))
            | _ \<Rightarrow> ((500, ChatError apology), [])))"

text \<open>Whether \<open>needle\<close> occurs in \<open>hay\<close> as a contiguous run.\<close>

fun starts_with :: "string \<Rightarrow> string \<Rightarrow> bool" where
  "starts_with [] hay = True"
| "starts_with (c # cs) [] = False"
| "starts_with (c # cs) (h # hs) = (c = h \<and> starts_with cs hs)"

fun occurs_in :: "string \<Rightarrow> string \<Rightarrow> bool" where
  "occurs_in needle [] = starts_with needle []"
| "occurs_in needle (h # hs) = (starts_with needle (h # hs) \<or> occurs_in needle hs)"

section \<open>The leads file and the lead handlers\<close>

text \<open>
  A stored lead is a JSON object; the model keeps the ten properties \<^verbatim>\<open>leadData\<close> has.
  The properties \<^verbatim>\<open>id\<close> and \<^verbatim>\<open>type\<close> are written \<open>lead_id\<close> and \<open>lead_type\<close>, and so
  the others.
\<close>

record lead =
  lead_id :: jsval
  lead_name :: jsval
  lead_phone :: jsval
  lead_email :: jsval
  lead_company :: jsval
  lead_message :: jsval
  lead_requirement :: jsval
  lead_type :: jsval
  lead_submittedAt :: jsval
  lead_ip :: jsval

text \<open>\<^verbatim>\<open>req.body\<close>, destructured at line 34 (\<open>type_tag\<close> is the property \<^verbatim>\<open>type\<close>).\<close>

record lead_form =
  name :: jsval
  phone :: jsval
  email :: jsval
  company :: jsval
  message :: jsval
  requirement :: jsval
  type_tag :: jsval

text \<open>
  \<^verbatim>\<open>data/leads.json\<close>, by what \<^verbatim>\<open>fs.readFile\<close> and \<^verbatim>\<open>JSON.parse\<close> make of it: the read
  throws (the file is absent or unreadable), the parse throws, the text is an array of
  leads (of objects), or it is JSON that is no array.
\<close>

datatype leadsFile = Unreadable | Unparsable | LeadArray "lead list" | NotArray

fun readFile_parse :: "leadsFile \<Rightarrow> error + lead list option" where
  "readFile_parse Unreadable = Inl IOError"
| "readFile_parse Unparsable = Inl SyntaxError"
| "readFile_parse (LeadArray ls) = Inr (Some ls)"
| "readFile_parse NotArray = Inr None"

text \<open>
  What one request observes: \<^verbatim>\<open>Date.now()\<close>, \<^verbatim>\<open>new Date().toISOString()\<close>, \<^verbatim>\<open>req.ip\<close>,
  whether \<^verbatim>\<open>fs.mkdir\<close> and \<^verbatim>\<open>fs.writeFile\<close> succeed, and the state a failed write
  leaves the file in.
\<close>

record request_env =
  now :: int
  isoNow :: string
  ip :: "string option"
  mkdir_ok :: bool
  write_ok :: bool
  after_failed_write :: leadsFile

text \<open>
  \<^verbatim>\<open>Number.prototype.toString\<close> on an integer (\<^verbatim>\<open>Date.now()\<close> is one, far below
  \<open>10\<^sup>2\<^sup>1\<close> in size): its decimal digits.
\<close>

definition digit :: "nat \<Rightarrow> char" where
  "digit d = char_of (48 + d)"

fun digits :: "nat \<Rightarrow> string" where
  "digits n = (if n < 10 then [digit n] else digits (n div 10) @ [digit (n mod 10)])"

declare digits.simps [simp del]

definition number_toString :: "int \<Rightarrow> string" where
  "number_toString i = (if i < 0 then CHR ''-'' # digits (nat (- i)) else digits (nat i))"

text \<open>Reading a run of decimal digits back, to tell two renderings apart.\<close>

definition digits_value :: "string \<Rightarrow> nat" where
  "digits_value s = foldl (\<lambda>a c. 10 * a + (of_char c - 48)) 0 s"

text \<open>
  The regular expression \<^verbatim>\<open>/^[^\s@]+@[^\s@]+\.[^\s@]+$/\<close>: \<open>address_char\<close> is the class
  \<^verbatim>\<open>[^\s@]\<close>, \<open>address_run\<close> is \<^verbatim>\<open>[^\s@]+\<close>, and the matcher tries every way of
  cutting the string, as a backtracking matcher does.
\<close>

definition address_char :: "char \<Rightarrow> bool" where
  "address_char c = (\<not> is_space c \<and> c \<noteq> CHR ''@'')"

definition address_run :: "string \<Rightarrow> bool" where
  "address_run s = (s \<noteq> [] \<and> list_all address_char s)"

fun splits :: "'a list \<Rightarrow> ('a list \<times> 'a list) list" where
  "splits [] = [([], [])]"
| "splits (x # xs) = ([], x # xs) # map (\<lambda>(u, v). (x # u, v)) (splits xs)"

definition domain_tld :: "string \<Rightarrow> bool" where
  "domain_tld s =
     list_ex (\<lambda>(domain, r). address_run domain \<and>
        (case r of [] \<Rightarrow> False | c # tld \<Rightarrow> c = CHR ''.'' \<and> address_run tld)) (splits s)"

definition emailRegex_test :: "string \<Rightarrow> bool" where
  "emailRegex_test s =
     list_ex (\<lambda>(local, r). address_run local \<and>
        (case r of [] \<Rightarrow> False | c # rest \<Rightarrow> c = CHR ''@'' \<and> domain_tld rest)) (splits s)"

definition and_then :: "error + 'a \<Rightarrow> ('a \<Rightarrow> error + 'b) \<Rightarrow> error + 'b" where
  "and_then r f = (case r of Inl e \<Rightarrow> Inl e | Inr x \<Rightarrow> f x)"

text \<open>Lines 53 to 64. Any of the \<^verbatim>\<open>.trim()\<close> calls throws on a value that is no string.\<close>

definition leadData :: "request_env \<Rightarrow> lead_form \<Rightarrow> error + lead" where
  "leadData e b =
     and_then (call_trim (name b)) (\<lambda>n.
     and_then (call_trim (phone b)) (\<lambda>p.
     and_then (call_trim (email b)) (\<lambda>m.
     and_then (call_trim (company b)) (\<lambda>c.
     and_then (if truthy (message b) then call_trim (message b)
               else Inr ''No additional message provided'') (\<lambda>msg.
     and_then (if truthy (requirement b) then call_trim (requirement b)
               else Inr ''General inquiry'') (\<lambda>r.
       Inr \<lparr> lead_id = JStr (number_toString (now e)),
             lead_name = JStr n,
             lead_phone = JStr p,
             lead_email = JStr (toLowerCase m),
             lead_company = JStr c,
             lead_message = JStr msg,
             lead_requirement = JStr r,
             lead_type = (if truthy (type_tag b) then type_tag b else JStr ''contact_form''),
             lead_submittedAt = JStr (isoNow e),
             lead_ip = JStr (case ip e of None \<Rightarrow> ''unknown''
                             | Some a \<Rightarrow> if a \<noteq> [] then a else ''unknown'') \<rparr>))))))"

text \<open>Lines 72 to 78: a failed read or parse leaves \<open>leads\<close> the empty array.\<close>

definition existing_leads :: "leadsFile \<Rightarrow> lead list option" where
  "existing_leads f = (case readFile_parse f of Inl e \<Rightarrow> Some [] | Inr v \<Rightarrow> v)"

datatype submit_body = SubmitBody bool string "jsval option"

definition missing_fields :: "nat \<times> submit_body" where
  "missing_fields =
     (400, SubmitBody False
        ''Missing required fields: name, phone, email, and company are required'' None)"

definition invalid_email :: "nat \<times> submit_body" where
  "invalid_email = (400, SubmitBody False ''Invalid email format'' None)"

definition internal_error :: "nat \<times> submit_body" where
  "internal_error = (500, SubmitBody False ''Internal server error'' None)"

text \<open>
  \<^verbatim>\<open>POST /api/submit-lead\<close>: the response and the leads file afterwards. Whatever the
  \<^verbatim>\<open>try\<close> block throws is answered with status 500; \<^verbatim>\<open>leads.push\<close> throws when the file
  holds JSON that is not an array.
\<close>

definition submit_lead :: "request_env \<Rightarrow> lead_form \<Rightarrow> leadsFile \<Rightarrow> (nat \<times> submit_body) \<times> leadsFile" where
  "submit_lead e b f =
     (if \<not> truthy (name b) \<or> \<not> truthy (phone b) \<or> \<not> truthy (email b) \<or> \<not> truthy (company b)
      then (missing_fields, f)
      else (case toString (email b) of
              Inl err \<Rightarrow> (internal_error, f)
            | Inr s \<Rightarrow>
                (if \<not> emailRegex_test s then (invalid_email, f)
                 else (case leadData e b of
                         Inl err \<Rightarrow> (internal_error, f)
                       | Inr ld \<Rightarrow>
                           (if \<not> mkdir_ok e then (internal_error, f)
                            else (case existing_leads f of
                                    None \<Rightarrow> (internal_error, f)
                                  | Some leads \<Rightarrow>
                                      (if write_ok e
                                       then ((200, SubmitBody True ''Lead submitted successfully''
                                                (Some (lead_id ld))),
                                             LeadArray (leads @ [ld]))
                                       else (internal_error, after_failed_write e))))))))"

text \<open>Submissions handled one after the other: the statuses answered and the file at the end.\<close>

fun submit_all :: "(request_env \<times> lead_form) list \<Rightarrow> leadsFile \<Rightarrow> nat list \<times> leadsFile" where
  "submit_all [] f = ([], f)"
| "submit_all ((e, b) # rest) f =
     (case submit_lead e b f of
        ((status, body), f') \<Rightarrow> (case submit_all rest f' of (ss, f'') \<Rightarrow> (status # ss, f'')))"

text \<open>\<^verbatim>\<open>GET /api/leads\<close>: the parsed file as it is, or the empty array when reading throws.\<close>

datatype leads_body = LeadsJson "lead list" | OtherJson

definition list_leads :: "leadsFile \<Rightarrow> nat \<times> leads_body" where
  "list_leads f =
     (case readFile_parse f of
        Inl err \<Rightarrow> (200, LeadsJson [])
      | Inr None \<Rightarrow> (200, OtherJson)
      | Inr (Some leads) \<Rightarrow> (200, LeadsJson leads))"

section \<open>The statistics handler\<close>

text \<open>
  The accumulator of the \<^verbatim>\<open>reduce\<close> at lines 213 to 217 is a plain object literal, so a
  property read that finds no own property goes on to \<^verbatim>\<open>Object.prototype\<close>. A property
  value is a number, a string, or a member of the prototype (its methods, and the
  prototype itself under \<^verbatim>\<open>__proto__\<close>). Own properties are kept in insertion order,
  which is the order JavaScript lists keys in that are not array indices.
\<close>

datatype propval = Count nat | Text string | Builtin string

type_synonym jsobject = "(string \<times> propval) list"

definition object_prototype :: "string list" where
  "object_prototype =
     [''constructor'', ''__defineGetter__'', ''__defineSetter__'', ''hasOwnProperty'',
      ''__lookupGetter__'', ''__lookupSetter__'', ''isPrototypeOf'', ''propertyIsEnumerable'',
      ''toString'', ''valueOf'', ''__proto__'', ''toLocaleString'']"

definition get_prop :: "jsobject \<Rightarrow> string \<Rightarrow> propval option" where
  "get_prop acc k =
     (case map_of acc k of
        Some v \<Rightarrow> Some v
      | None \<Rightarrow> if k \<in> set object_prototype then Some (Builtin k) else None)"

text \<open>
  The string conversion of a member of the prototype, as V8 prints it: the source text of
  a native function, and \<^verbatim>\<open>[object Object]\<close> for the prototype itself.
\<close>

definition builtin_text :: "string \<Rightarrow> string" where
  "builtin_text k =
     (if k = ''__proto__'' then ''[object Object]''
      else ''function '' @ (if k = ''constructor'' then ''Object'' else k) @ ''() { [native code] }'')"

text \<open>\<^verbatim>\<open>(acc[service] || 0) + 1\<close>: addition on a number, concatenation on anything else.\<close>

fun or_zero_plus_one :: "propval option \<Rightarrow> propval" where
  "or_zero_plus_one None = Count 1"
| "or_zero_plus_one (Some (Count n)) = Count (n + 1)"
| "or_zero_plus_one (Some (Text s)) = (if s = [] then Count 1 else Text (s @ ''1''))"
| "or_zero_plus_one (Some (Builtin k)) = Text (builtin_text k @ ''1'')"

text \<open>
  \<^verbatim>\<open>acc[service] = v\<close>: under \<^verbatim>\<open>__proto__\<close> the setter of the prototype runs, which
  ignores a value that is no object; any other key becomes an own property.
\<close>

definition set_prop :: "jsobject \<Rightarrow> string \<Rightarrow> propval \<Rightarrow> jsobject" where
  "set_prop acc k v = (if k = ''__proto__'' then acc else AList.update k v acc)"

definition service_of :: "lead \<Rightarrow> error + string" where
  "service_of l =
     toString (if truthy (lead_requirement l) then lead_requirement l else JStr ''General Inquiry'')"

fun serviceRequests :: "lead list \<Rightarrow> jsobject \<Rightarrow> error + jsobject" where
  "serviceRequests [] acc = Inr acc"
| "serviceRequests (l # ls) acc =
     (case service_of l of
        Inl e \<Rightarrow> Inl e
      | Inr service \<Rightarrow>
          serviceRequests ls (set_prop acc service (or_zero_plus_one (get_prop acc service))))"

text \<open>
  \<open>todayLeads\<close>: the comparison of lines 209 to 211 is a parameter \<open>today\<close> of the
  handler, a function of a lead's \<^verbatim>\<open>submittedAt\<close> (it depends on the clock and the time
  zone, and throws when the value cannot be converted).
\<close>

fun todayLeads :: "(jsval \<Rightarrow> error + bool) \<Rightarrow> lead list \<Rightarrow> error + nat" where
  "todayLeads today [] = Inr 0"
| "todayLeads today (l # ls) =
     (case today (lead_submittedAt l) of
        Inl e \<Rightarrow> Inl e
      | Inr t \<Rightarrow> (case todayLeads today ls of
                   Inl e \<Rightarrow> Inl e
                 | Inr n \<Rightarrow> Inr (if t then n + 1 else n)))"

datatype stats_body = Stats nat nat jsobject

definition zero_stats :: "nat \<times> stats_body" where
  "zero_stats = (200, Stats 0 0 [])"

text \<open>\<^verbatim>\<open>GET /api/stats\<close>: anything the \<^verbatim>\<open>try\<close> block throws is answered with the zero statistics.\<close>

definition stats :: "(jsval \<Rightarrow> error + bool) \<Rightarrow> leadsFile \<Rightarrow> nat \<times> stats_body" where
  "stats today f =
     (case readFile_parse f of
        Inl err \<Rightarrow> zero_stats
      | Inr None \<Rightarrow> zero_stats
      | Inr (Some leads) \<Rightarrow>
          (case todayLeads today leads of
             Inl err \<Rightarrow> zero_stats
           | Inr t \<Rightarrow>
               (case serviceRequests leads [] of
                  Inl err \<Rightarrow> zero_stats
                | Inr sr \<Rightarrow> (200, Stats (length leads) t sr))))"

text \<open>
  For stating what the \<^verbatim>\<open>reduce\<close> computes: the number an accumulator holds under a key
  (0 when there is none), and accumulators all of whose properties are positive numbers.
\<close>

definition tally :: "jsobject \<Rightarrow> string \<Rightarrow> nat" where
  "tally acc k = (case map_of acc k of Some (Count n) \<Rightarrow> n | _ \<Rightarrow> 0)"

definition counted :: "jsobject \<Rightarrow> bool" where
  "counted acc = (\<forall>k v. map_of acc k = Some v \<longrightarrow> (\<exists>n. 0 < n \<and> v = Count n))"

section \<open>Example requests\<close>

text \<open>
  Concrete requests and environments, on which the theorems below are instantiated: the
  submission of the specification's scenario, a clock reading, and providers that answer.
\<close>

definition demo_env :: request_env where
  "demo_env =
     \<lparr> now = 1700000000000, isoNow = ''2023-11-14T22:13:20.000Z'', ip = Some ''127.0.0.1'',
       mkdir_ok = True, write_ok = True, after_failed_write = Unreadable \<rparr>"

definition demo_form :: lead_form where
  "demo_form =
     \<lparr> name = JStr ''A'', phone = JStr ''123'', email = JStr ''a@b.com'', company = JStr ''X'',
       message = JUndefined, requirement = JUndefined, type_tag = JUndefined \<rparr>"

definition demo_config :: config where
  "demo_config =
     \<lparr> endpoint = Some ''https://example.openai.azure.com'', apiKey = Some ''k1'',
       deploymentName = Some ''gpt'', searchEndpoint = Some ''https://example.search.windows.net'',
       searchKey = Some ''k2'', searchIndex = Some ''docs'' \<rparr>"

definition demo_providers :: "search_outcome \<Rightarrow> providers" where
  "demo_providers out =
     \<lparr> search = (\<lambda>q. out), complete = (\<lambda>sys user. Some (JStr ''Hello from GradientM'')) \<rparr>"

definition lead_with_requirement :: "jsval \<Rightarrow> lead" where
  "lead_with_requirement r =
     \<lparr> lead_id = JStr ''1'', lead_name = JStr ''A'', lead_phone = JStr ''123'',
       lead_email = JStr ''a@b.com'', lead_company = JStr ''X'',
       lead_message = JStr ''No additional message provided'', lead_requirement = r,
       lead_type = JStr ''contact_form'', lead_submittedAt = JStr ''2023-11-14T22:13:20.000Z'',
       lead_ip = JStr ''127.0.0.1'' \<rparr>"

section \<open>Strings and numbers\<close>

lemma is_space_lower_char: "is_space (lower_char c) = is_space c"
proof -
  define n where "n = (of_char c :: nat)"
  have c: "c = char_of n" by (simp add: n_def)
  have n: "n < 256" by (simp add: n_def)
  show ?thesis
    unfolding c
    using n by (auto simp: lower_char_def is_space_def Let_def char_of_def)
qed

lemma is_space_lower_char_comp: "is_space \<circ> lower_char = is_space"
  by (rule ext) (simp add: is_space_lower_char)

lemma trim_toLowerCase: "trim (toLowerCase s) = toLowerCase (trim s)"
  by (simp add: trim_def toLowerCase_def dropWhile_map rev_map is_space_lower_char_comp)

lemma trim_Nil_all_space: "trim s = [] \<Longrightarrow> list_all is_space s"
proof -
  assume t: "trim s = []"
  have "dropWhile is_space s = []"
  proof (rule ccontr)
    assume ne: "dropWhile is_space s \<noteq> []"
    from t have "\<forall>c \<in> set (rev (dropWhile is_space s)). is_space c"
      by (simp add: trim_def)
    then have "is_space (hd (dropWhile is_space s))"
      using ne by simp
    with hd_dropWhile [OF ne] show False by simp
  qed
  then show ?thesis by (simp add: list_all_iff)
qed

lemma of_char_digit: "d < 10 \<Longrightarrow> (of_char (digit d) :: nat) = 48 + d"
  by (simp add: digit_def)

lemma digits_value_digits: "digits_value (digits n) = n"
proof (induction n rule: digits.induct)
  case (1 n)
  show ?case
  proof (cases "n < 10")
    case True
    then show ?thesis
      by (subst digits.simps) (simp add: digits_value_def of_char_digit)
  next
    case False
    have "digits_value (digits n) = 10 * digits_value (digits (n div 10)) + (of_char (digit (n mod 10)) - 48)"
      using False by (subst digits.simps) (simp add: digits_value_def)
    also have "\<dots> = 10 * (n div 10) + n mod 10"
      using "1.IH" [OF False] by (simp add: of_char_digit)
    finally show ?thesis by simp
  qed
qed

lemma digits_inj: "digits a = digits b \<Longrightarrow> a = b"
  by (metis digits_value_digits)

lemma digits_not_Nil: "digits n \<noteq> []"
  by (subst digits.simps) simp

lemma digit_not_minus: "d < 10 \<Longrightarrow> digit d \<noteq> CHR ''-''"
proof
  assume "d < 10" and "digit d = CHR ''-''"
  then have "(of_char (digit d) :: nat) = of_char (CHR ''-'')" by simp
  with \<open>d < 10\<close> show False by (simp add: of_char_digit)
qed

lemma hd_digits: "hd (digits n) \<noteq> CHR ''-''"
proof (induction n rule: digits.induct)
  case (1 n)
  show ?case
  proof (cases "n < 10")
    case True
    then show ?thesis by (subst digits.simps) (simp add: digit_not_minus)
  next
    case False
    then show ?thesis
      using "1.IH" [OF False] digits_not_Nil [of "n div 10"]
      by (subst digits.simps) simp
  qed
qed

lemma number_toString_inj: "number_toString i = number_toString j \<Longrightarrow> i = j"
proof -
  assume eq: "number_toString i = number_toString j"
  have neg: "CHR ''-'' # digits a \<noteq> digits b" for a b
    using hd_digits [of b] by (metis list.sel(1))
  show "i = j"
  proof (cases "i < 0")
    case True
    show ?thesis
    proof (cases "j < 0")
      case True
      with \<open>i < 0\<close> eq have "nat (- i) = nat (- j)"
        by (auto simp: number_toString_def dest: digits_inj)
      with True \<open>i < 0\<close> show ?thesis by simp
    next
      case False
      with True eq neg show ?thesis by (simp add: number_toString_def)
    qed
  next
    case False
    show ?thesis
    proof (cases "j < 0")
      case True
      with False eq neg [of "nat (- j)" "nat i"] show ?thesis by (simp add: number_toString_def)
    next
      case jn: False
      with False eq have "nat i = nat j"
        by (auto simp: number_toString_def dest: digits_inj)
      with False jn show ?thesis by simp
    qed
  qed
qed

lemma number_toString_not_Nil: "number_toString i \<noteq> []"
  by (simp add: number_toString_def digits_not_Nil)

section \<open>The chat handler: the shortcut and the search block\<close>

lemma hi_inputs:
  "toLowerCase (trim ''hi'') = ''hi''"
  "toLowerCase (trim '' Hi '') = ''hi''"
  "toLowerCase (trim ''HI'') = ''hi''"
  by code_simp+

text \<open>
  Claim C5. A message whose trimmed, lower-cased form is \<^verbatim>\<open>hi\<close> is answered with status 200
  and the reply \<^verbatim>\<open>gpt-40\<close>, and the list of outbound calls is empty: neither the search
  provider nor the completion provider is called, whatever the configuration.
\<close>

theorem chat_hi_shortcut:
  assumes "toLowerCase (trim m) = ''hi''"
  shows "chat cfg p (JStr m) = ((200, ChatResponse (JStr ''gpt-40'')), [])"
proof -
  have "m \<noteq> []"
  proof
    assume "m = []"
    with assms show False by (simp add: trim_def toLowerCase_def)
  qed
  moreover have "trim (toLowerCase m) = ''hi''"
    using assms by (simp add: trim_toLowerCase)
  ultimately show ?thesis by (simp add: chat_def)
qed

theorem chat_hi_shortcut_witness:
  "toLowerCase (trim ''hi'') = ''hi'' \<and> toLowerCase (trim '' Hi '') = ''hi''
   \<and> toLowerCase (trim ''HI'') = ''hi''
   \<and> chat demo_config (demo_providers SearchThrows) (JStr ''hi'') = ((200, ChatResponse (JStr ''gpt-40'')), [])
   \<and> chat demo_config (demo_providers SearchThrows) (JStr '' Hi '') = ((200, ChatResponse (JStr ''gpt-40'')), [])
   \<and> chat demo_config (demo_providers SearchThrows) (JStr ''HI'') = ((200, ChatResponse (JStr ''gpt-40'')), [])"
  using chat_hi_shortcut [OF hi_inputs(1)] chat_hi_shortcut [OF hi_inputs(2)]
    chat_hi_shortcut [OF hi_inputs(3)] hi_inputs
  by simp

lemma systemMessage_plain: "\<not> occurs_in ''Additional Context'' (systemMessage [])"
  by (simp add: systemMessage_def nl_def indent_def)

lemma searchResults_of_empty:
  "out = SearchThrows \<or> out = SearchValue None \<or> out = SearchValue (Some []) \<Longrightarrow> searchResults_of out = []"
  by (auto simp: searchResults_of_def)

lemma hello_is_no_shortcut: "''hello'' \<noteq> [] \<and> trim (toLowerCase ''hello'') \<noteq> ''hi''"
  by code_simp

text \<open>
  Claim C7. For a message that is not the shortcut, when the search provider is not
  configured, or its call throws, or it returns no results, \<open>searchResults\<close> stays empty:
  the completion provider is called with the system prompt built from the empty string,
  which holds no \<^verbatim>\<open>Additional Context\<close>, and the response is the one the completion
  call alone decides (status 200 with its reply when it succeeds). The search call is
  the only other outbound call, made when the provider is configured.
\<close>

theorem chat_search_degrades:
  assumes "m \<noteq> []" and "trim (toLowerCase m) \<noteq> ''hi''"
    and "\<not> (env_truthy (searchEndpoint cfg) \<and> env_truthy (searchKey cfg))
         \<or> search p m = SearchThrows \<or> search p m = SearchValue None \<or> search p m = SearchValue (Some [])"
  shows "chat cfg p (JStr m) =
           ((case complete p (systemMessage []) m of
               None \<Rightarrow> (500, ChatError apology)
             | Some aiResponse \<Rightarrow> (200, ChatResponse aiResponse)),
            (if env_truthy (searchEndpoint cfg) \<and> env_truthy (searchKey cfg)
             then [SearchCall m] else []) @ [CompletionCall (systemMessage []) m])
         \<and> \<not> occurs_in ''Additional Context'' (systemMessage [])"
proof (cases "env_truthy (searchEndpoint cfg) \<and> env_truthy (searchKey cfg)")
  case True
  with assms(3) have "searchResults_of (search p m) = []"
    by (auto simp: searchResults_of_empty)
  with True assms(1,2) systemMessage_plain show ?thesis
    by (simp add: chat_def Let_def split: option.split)
next
  case False
  then consider "\<not> env_truthy (searchEndpoint cfg)" | "\<not> env_truthy (searchKey cfg)"
    by blast
  then show ?thesis
  proof cases
    case 1
    with assms(1,2) systemMessage_plain show ?thesis
      by (simp add: chat_def Let_def split: option.split)
  next
    case 2
    with assms(1,2) systemMessage_plain show ?thesis
      by (simp add: chat_def Let_def split: option.split)
  qed
qed

theorem chat_search_degrades_witness:
  "chat demo_config (demo_providers SearchThrows) (JStr ''hello'') =
     ((200, ChatResponse (JStr ''Hello from GradientM'')),
      [SearchCall ''hello'', CompletionCall (systemMessage []) ''hello''])
   \<and> chat demo_config (demo_providers (SearchValue (Some []))) (JStr ''hello'') =
     ((200, ChatResponse (JStr ''Hello from GradientM'')),
      [SearchCall ''hello'', CompletionCall (systemMessage []) ''hello''])
   \<and> chat (demo_config \<lparr> searchKey := None \<rparr>) (demo_providers SearchThrows) (JStr ''hello'') =
     ((200, ChatResponse (JStr ''Hello from GradientM'')),
      [CompletionCall (systemMessage []) ''hello''])"
proof -
  have a: "''hello'' \<noteq> []" and b: "trim (toLowerCase ''hello'') \<noteq> ''hi''"
    using hello_is_no_shortcut by simp_all
  have c1: "\<not> (env_truthy (searchEndpoint demo_config) \<and> env_truthy (searchKey demo_config))
         \<or> search (demo_providers SearchThrows) ''hello'' = SearchThrows
         \<or> search (demo_providers SearchThrows) ''hello'' = SearchValue None
         \<or> search (demo_providers SearchThrows) ''hello'' = SearchValue (Some [])"
    by (simp add: demo_providers_def)
  have c2: "\<not> (env_truthy (searchEndpoint demo_config) \<and> env_truthy (searchKey demo_config))
         \<or> search (demo_providers (SearchValue (Some []))) ''hello'' = SearchThrows
         \<or> search (demo_providers (SearchValue (Some []))) ''hello'' = SearchValue None
         \<or> search (demo_providers (SearchValue (Some []))) ''hello'' = SearchValue (Some [])"
    by (simp add: demo_providers_def)
  have c3: "\<not> (env_truthy (searchEndpoint (demo_config \<lparr> searchKey := None \<rparr>))
              \<and> env_truthy (searchKey (demo_config \<lparr> searchKey := None \<rparr>)))
         \<or> search (demo_providers SearchThrows) ''hello'' = SearchThrows
         \<or> search (demo_providers SearchThrows) ''hello'' = SearchValue None
         \<or> search (demo_providers SearchThrows) ''hello'' = SearchValue (Some [])"
    by (simp add: demo_providers_def)
  show ?thesis
    using chat_search_degrades [OF a b c1] chat_search_degrades [OF a b c2]
      chat_search_degrades [OF a b c3]
    by (simp add: demo_providers_def demo_config_def env_truthy_def)
qed

section \<open>The submit-lead handler\<close>

lemma in_set_splits: "(u, v) \<in> set (splits s) \<longleftrightarrow> u @ v = s"
proof (induction s arbitrary: u)
  case Nil
  then show ?case by auto
next
  case (Cons x xs)
  show ?case
  proof (cases u)
    case Nil
    then show ?thesis by auto
  next
    case (Cons y ys)
    have "(y # ys, v) \<in> (\<lambda>(u, v). (x # u, v)) ` set (splits xs)
            \<longleftrightarrow> y = x \<and> (ys, v) \<in> set (splits xs)"
      by force
    with Cons Cons.IH [of ys] show ?thesis by auto
  qed
qed

lemma emailRegex_test_first:
  assumes "emailRegex_test s"
  shows "s \<noteq> [] \<and> address_char (hd s)"
proof -
  from assms obtain u v where uv: "u @ v = s" and run: "address_run u"
    by (auto simp: emailRegex_test_def list_ex_iff in_set_splits)
  from run obtain c cs where u: "u = c # cs" and "address_char c"
    by (cases u) (auto simp: address_run_def)
  with uv show ?thesis by auto
qed

lemma blank_email_rejected: "trim s = [] \<Longrightarrow> \<not> emailRegex_test s"
proof
  assume t: "trim s = []" and m: "emailRegex_test s"
  from emailRegex_test_first [OF m] have "s \<noteq> []" and "\<not> is_space (hd s)"
    by (simp_all add: address_char_def)
  moreover from trim_Nil_all_space [OF t] have "\<forall>c \<in> set s. is_space c"
    by (simp add: list_all_iff)
  ultimately show False by (cases s) auto
qed

lemma emailRegex_test_not_Nil: "emailRegex_test s \<Longrightarrow> s \<noteq> []"
  using emailRegex_test_first by blast


lemma emailRegex_test_example: "emailRegex_test ''a@b.com''"
  by code_simp

lemma leadData_ok:
  assumes "name b = JStr n" and "phone b = JStr p" and "email b = JStr m" and "company b = JStr c"
    and "\<not> truthy (message b) \<or> (\<exists>s. message b = JStr s)"
    and "\<not> truthy (requirement b) \<or> (\<exists>s. requirement b = JStr s)"
  shows "\<exists>ld. leadData e b = Inr ld"
proof -
  have "\<exists>msg. (if truthy (message b) then call_trim (message b)
               else Inr ''No additional message provided'') = Inr msg"
    using assms(5) by (cases "truthy (message b)") auto
  then obtain msg where msg: "(if truthy (message b) then call_trim (message b)
               else Inr ''No additional message provided'') = Inr msg" ..
  have "\<exists>r. (if truthy (requirement b) then call_trim (requirement b)
               else Inr ''General inquiry'') = Inr r"
    using assms(6) by (cases "truthy (requirement b)") auto
  then obtain r where r: "(if truthy (requirement b) then call_trim (requirement b)
               else Inr ''General inquiry'') = Inr r" ..
  show ?thesis
    using assms(1-4) msg r by (simp add: leadData_def and_then_def)
qed

lemma and_then_Inr: "and_then r f = Inr y \<Longrightarrow> \<exists>x. r = Inr x \<and> f x = Inr y"
  by (cases r) (simp_all add: and_then_def)

lemma leadData_fields:
  assumes "leadData e b = Inr ld"
  shows "lead_id ld = JStr (number_toString (now e))"
    and "\<not> truthy (message b) \<Longrightarrow> lead_message ld = JStr ''No additional message provided''"
    and "\<not> truthy (requirement b) \<Longrightarrow> lead_requirement ld = JStr ''General inquiry''"
    and "lead_type ld = (if truthy (type_tag b) then type_tag b else JStr ''contact_form'')"
proof -
  from assms obtain n p m c msg r where
    msg: "(if truthy (message b) then call_trim (message b)
           else Inr ''No additional message provided'') = Inr msg"
    and r: "(if truthy (requirement b) then call_trim (requirement b)
           else Inr ''General inquiry'') = Inr r"
    and ld: "ld = \<lparr> lead_id = JStr (number_toString (now e)),
             lead_name = JStr n,
             lead_phone = JStr p,
             lead_email = JStr (toLowerCase m),
             lead_company = JStr c,
             lead_message = JStr msg,
             lead_requirement = JStr r,
             lead_type = (if truthy (type_tag b) then type_tag b else JStr ''contact_form''),
             lead_submittedAt = JStr (isoNow e),
             lead_ip = JStr (case ip e of None \<Rightarrow> ''unknown''
                             | Some a \<Rightarrow> if a \<noteq> [] then a else ''unknown'') \<rparr>"
    unfolding leadData_def by (fastforce dest!: and_then_Inr)
  show "lead_id ld = JStr (number_toString (now e))" by (simp add: ld)
  show "lead_type ld = (if truthy (type_tag b) then type_tag b else JStr ''contact_form'')"
    by (simp add: ld)
  show "lead_message ld = JStr ''No additional message provided''" if "\<not> truthy (message b)"
    using that msg by (simp add: ld)
  show "lead_requirement ld = JStr ''General inquiry''" if "\<not> truthy (requirement b)"
    using that r by (simp add: ld)
qed

lemma list_leads_existing:
  "list_leads f = (200, LeadsJson leads) \<Longrightarrow> existing_leads f = Some leads"
  by (cases f) (simp_all add: list_leads_def existing_leads_def)

lemma submit_lead_stores:
  assumes "truthy (name b)" and "truthy (phone b)" and "truthy (email b)" and "truthy (company b)"
    and "toString (email b) = Inr s" and "emailRegex_test s"
    and "leadData e b = Inr ld"
    and "mkdir_ok e" and "write_ok e"
    and "existing_leads f = Some leads"
  shows "submit_lead e b f =
           ((200, SubmitBody True ''Lead submitted successfully'' (Some (lead_id ld))),
            LeadArray (leads @ [ld]))"
  using assms by (simp add: submit_lead_def)

lemma demo_lead:
  "leadData demo_env demo_form = Inr
     \<lparr> lead_id = JStr ''1700000000000'', lead_name = JStr ''A'', lead_phone = JStr ''123'',
       lead_email = JStr ''a@b.com'', lead_company = JStr ''X'',
       lead_message = JStr ''No additional message provided'',
       lead_requirement = JStr ''General inquiry'', lead_type = JStr ''contact_form'',
       lead_submittedAt = JStr ''2023-11-14T22:13:20.000Z'', lead_ip = JStr ''127.0.0.1'' \<rparr>"
  by (simp add: leadData_def and_then_def demo_env_def demo_form_def trim_def is_space_def
      toLowerCase_def lower_char_def number_toString_def digits.simps digit_def char_of_def bit_0)

text \<open>
  Claim C1, as amended. A submission whose name, phone, email and company are non-empty
  strings, with an email the regular expression matches, and whose message and
  requirement are each absent, null, empty or a string, is answered with status 200 and
  an acknowledgment whose \<open>leadId\<close> is the id of the new lead, a non-empty string; the
  leads file afterwards is the array read before (empty when the file could not be read
  or parsed) with the new lead appended, so every prior lead is kept, in order, and the
  length grows by one. The environment is that of a write that works: \<^verbatim>\<open>fs.mkdir\<close> and
  \<^verbatim>\<open>fs.writeFile\<close> succeed and the file does not hold JSON that is no array.
\<close>

theorem submit_valid_appends:
  assumes "name b = JStr n" and "n \<noteq> []"
    and "phone b = JStr p" and "p \<noteq> []"
    and "email b = JStr m" and "emailRegex_test m"
    and "company b = JStr c" and "c \<noteq> []"
    and "\<not> truthy (message b) \<or> (\<exists>s. message b = JStr s)"
    and "\<not> truthy (requirement b) \<or> (\<exists>s. requirement b = JStr s)"
    and "mkdir_ok e" and "write_ok e"
    and "list_leads f = (200, LeadsJson leads)"
  shows "\<exists>ld. submit_lead e b f =
           ((200, SubmitBody True ''Lead submitted successfully'' (Some (lead_id ld))),
            LeadArray (leads @ [ld]))
         \<and> lead_id ld = JStr (number_toString (now e))
         \<and> number_toString (now e) \<noteq> []
         \<and> list_leads (LeadArray (leads @ [ld])) = (200, LeadsJson (leads @ [ld]))"
proof -
  have m: "m \<noteq> []" using assms(6) by (rule emailRegex_test_not_Nil)
  from leadData_ok [OF assms(1,3,5,7,9,10)] obtain ld where ld: "leadData e b = Inr ld" ..
  have "submit_lead e b f =
           ((200, SubmitBody True ''Lead submitted successfully'' (Some (lead_id ld))),
            LeadArray (leads @ [ld]))"
    using assms(1-8) m ld assms(11,12) list_leads_existing [OF assms(13)]
    by (intro submit_lead_stores [where s = m]) simp_all
  moreover have "number_toString (now e) \<noteq> []"
    by (simp add: number_toString_def) (subst digits.simps, simp)+
  ultimately show ?thesis
    using leadData_fields(1) [OF ld] by (auto simp: list_leads_def)
qed

theorem submit_valid_appends_witness:
  "\<exists>ld. submit_lead demo_env demo_form (LeadArray [lead_with_requirement (JStr ''Cloud'')]) =
           ((200, SubmitBody True ''Lead submitted successfully'' (Some (lead_id ld))),
            LeadArray ([lead_with_requirement (JStr ''Cloud'')] @ [ld]))
         \<and> lead_id ld = JStr (number_toString (now demo_env))
         \<and> number_toString (now demo_env) \<noteq> []
         \<and> list_leads (LeadArray ([lead_with_requirement (JStr ''Cloud'')] @ [ld])) =
             (200, LeadsJson ([lead_with_requirement (JStr ''Cloud'')] @ [ld]))"
  by (rule submit_valid_appends [where n = "''A''" and p = "''123''" and m = "''a@b.com''" and c = "''X''"])
     (simp_all add: demo_form_def demo_env_def list_leads_def emailRegex_test_example)

text \<open>
  The claim C1 as it is written fails on a submission whose four required fields are
  valid and whose message is the number 5: the value is truthy and has no \<^verbatim>\<open>trim\<close>
  method, line 59 throws, and the handler answers with status 500 and stores nothing.
\<close>

theorem numeric_message_not_stored:
  "name (demo_form \<lparr> message := JOther True (Some ''5'') \<rparr>) = JStr ''A''
   \<and> phone (demo_form \<lparr> message := JOther True (Some ''5'') \<rparr>) = JStr ''123''
   \<and> email (demo_form \<lparr> message := JOther True (Some ''5'') \<rparr>) = JStr ''a@b.com''
   \<and> company (demo_form \<lparr> message := JOther True (Some ''5'') \<rparr>) = JStr ''X''
   \<and> emailRegex_test ''a@b.com''
   \<and> mkdir_ok demo_env \<and> write_ok demo_env
   \<and> submit_lead demo_env (demo_form \<lparr> message := JOther True (Some ''5'') \<rparr>) (LeadArray []) =
       ((500, SubmitBody False ''Internal server error'' None), LeadArray [])"
proof -
  have "leadData demo_env (demo_form \<lparr> message := JOther True (Some ''5'') \<rparr>) = Inl TypeError"
    by (simp add: leadData_def and_then_def demo_form_def)
  then have "submit_lead demo_env (demo_form \<lparr> message := JOther True (Some ''5'') \<rparr>) (LeadArray []) =
       ((500, SubmitBody False ''Internal server error'' None), LeadArray [])"
    by (simp add: submit_lead_def internal_error_def demo_form_def emailRegex_test_example)
  then show ?thesis
    by (simp add: demo_form_def demo_env_def emailRegex_test_example)
qed

text \<open>
  What the check of line 37 and the regular expression do reject: a submission in which
  name, phone, email or company is absent, null or the empty string is answered with
  status 400 and a message, and the leads file is unchanged; so is one whose email is a
  string that is empty after trimming.
\<close>

theorem submit_missing_field_rejected:
  assumes "\<not> truthy (name b) \<or> \<not> truthy (phone b) \<or> \<not> truthy (email b) \<or> \<not> truthy (company b)
           \<or> (\<exists>s. email b = JStr s \<and> trim s = [])"
  shows "\<exists>msg. submit_lead e b f = ((400, SubmitBody False msg None), f) \<and> msg \<noteq> []"
proof (cases "\<not> truthy (name b) \<or> \<not> truthy (phone b) \<or> \<not> truthy (email b) \<or> \<not> truthy (company b)")
  case True
  then have "submit_lead e b f = (missing_fields, f)"
    by (simp add: submit_lead_def)
  then show ?thesis by (simp add: missing_fields_def)
next
  case False
  with assms obtain s where s: "email b = JStr s" and t: "trim s = []" by blast
  from blank_email_rejected [OF t] False s
  have "submit_lead e b f = (invalid_email, f)"
    by (simp add: submit_lead_def)
  then show ?thesis by (simp add: invalid_email_def)
qed

theorem submit_missing_field_rejected_witness:
  "(\<exists>msg. submit_lead demo_env (demo_form \<lparr> phone := JStr [] \<rparr>) (LeadArray []) =
       ((400, SubmitBody False msg None), LeadArray []) \<and> msg \<noteq> [])
   \<and> (\<exists>msg. submit_lead demo_env (demo_form \<lparr> company := JUndefined \<rparr>) (LeadArray []) =
       ((400, SubmitBody False msg None), LeadArray []) \<and> msg \<noteq> [])
   \<and> (\<exists>msg. submit_lead demo_env (demo_form \<lparr> email := JStr ''  '' \<rparr>) (LeadArray []) =
       ((400, SubmitBody False msg None), LeadArray []) \<and> msg \<noteq> [])"
proof -
  have blank: "trim ''  '' = []" by (simp add: trim_def is_space_def)
  show ?thesis
    using submit_missing_field_rejected [of "demo_form \<lparr> phone := JStr [] \<rparr>" demo_env "LeadArray []"]
      submit_missing_field_rejected [of "demo_form \<lparr> company := JUndefined \<rparr>" demo_env "LeadArray []"]
      submit_missing_field_rejected [of "demo_form \<lparr> email := JStr ''  '' \<rparr>" demo_env "LeadArray []"]
      blank
    by (simp add: demo_form_def)
qed

text \<open>
  Claim C2. A submission in which a required field is empty after trimming is to be
  answered with status 400 and leave the store unchanged. The handler validates at line
  37, before the \<^verbatim>\<open>.trim()\<close> calls of lines 55 to 58, and so fails the claim on a name of
  white space only: the submission is answered with status 200 and a lead is stored
  whose name is the empty string, the value the check is there to refuse.
\<close>

theorem blank_name_accepted:
  "trim ''   '' = []
   \<and> submit_lead demo_env (demo_form \<lparr> name := JStr ''   '' \<rparr>) (LeadArray []) =
     ((200, SubmitBody True ''Lead submitted successfully'' (Some (JStr ''1700000000000''))),
      LeadArray [
       \<lparr> lead_id = JStr ''1700000000000'', lead_name = JStr [], lead_phone = JStr ''123'',
         lead_email = JStr ''a@b.com'', lead_company = JStr ''X'',
         lead_message = JStr ''No additional message provided'',
         lead_requirement = JStr ''General inquiry'', lead_type = JStr ''contact_form'',
         lead_submittedAt = JStr ''2023-11-14T22:13:20.000Z'', lead_ip = JStr ''127.0.0.1'' \<rparr>])"
proof -
  have t: "trim ''   '' = []" by (simp add: trim_def is_space_def)
  have ld: "leadData demo_env (demo_form \<lparr> name := JStr ''   '' \<rparr>) = Inr
       \<lparr> lead_id = JStr ''1700000000000'', lead_name = JStr [], lead_phone = JStr ''123'',
         lead_email = JStr ''a@b.com'', lead_company = JStr ''X'',
         lead_message = JStr ''No additional message provided'',
         lead_requirement = JStr ''General inquiry'', lead_type = JStr ''contact_form'',
         lead_submittedAt = JStr ''2023-11-14T22:13:20.000Z'', lead_ip = JStr ''127.0.0.1'' \<rparr>"
    by (simp add: leadData_def and_then_def demo_env_def demo_form_def trim_def is_space_def
      toLowerCase_def lower_char_def number_toString_def digits.simps digit_def char_of_def bit_0)
  have "submit_lead demo_env (demo_form \<lparr> name := JStr ''   '' \<rparr>) (LeadArray []) =
     ((200, SubmitBody True ''Lead submitted successfully'' (Some (lead_id
       \<lparr> lead_id = JStr ''1700000000000'', lead_name = JStr [], lead_phone = JStr ''123'',
         lead_email = JStr ''a@b.com'', lead_company = JStr ''X'',
         lead_message = JStr ''No additional message provided'',
         lead_requirement = JStr ''General inquiry'', lead_type = JStr ''contact_form'',
         lead_submittedAt = JStr ''2023-11-14T22:13:20.000Z'', lead_ip = JStr ''127.0.0.1'' \<rparr>))),
      LeadArray ([] @ [
       \<lparr> lead_id = JStr ''1700000000000'', lead_name = JStr [], lead_phone = JStr ''123'',
         lead_email = JStr ''a@b.com'', lead_company = JStr ''X'',
         lead_message = JStr ''No additional message provided'',
         lead_requirement = JStr ''General inquiry'', lead_type = JStr ''contact_form'',
         lead_submittedAt = JStr ''2023-11-14T22:13:20.000Z'', lead_ip = JStr ''127.0.0.1'' \<rparr>]))"
    by (rule submit_lead_stores [where s = "''a@b.com''", OF _ _ _ _ _ emailRegex_test_example ld])
       (simp_all add: demo_form_def demo_env_def existing_leads_def)
  with t show ?thesis by simp
qed

theorem blank_name_accepted_witness:
  "fst (fst (submit_lead demo_env (demo_form \<lparr> name := JStr ''   '' \<rparr>) (LeadArray []))) \<noteq> 400
   \<and> snd (submit_lead demo_env (demo_form \<lparr> name := JStr ''   '' \<rparr>) (LeadArray [])) \<noteq> LeadArray []"
  using blank_name_accepted by simp




text \<open>
  Claim C9. A valid submission that omits message, requirement and type (and is stored:
  the environment is as for C1) stores a lead whose message is
  \<^verbatim>\<open>No additional message provided\<close>, whose requirement is \<^verbatim>\<open>General inquiry\<close> and whose
  type is \<^verbatim>\<open>contact_form\<close>.
\<close>

theorem submit_defaults_when_omitted:
  assumes "name b = JStr n" and "n \<noteq> []"
    and "phone b = JStr p" and "p \<noteq> []"
    and "email b = JStr m" and "emailRegex_test m"
    and "company b = JStr c" and "c \<noteq> []"
    and "message b = JUndefined" and "requirement b = JUndefined" and "type_tag b = JUndefined"
    and "mkdir_ok e" and "write_ok e"
    and "list_leads f = (200, LeadsJson leads)"
  shows "\<exists>ld. snd (submit_lead e b f) = LeadArray (leads @ [ld])
         \<and> lead_message ld = JStr ''No additional message provided''
         \<and> lead_requirement ld = JStr ''General inquiry''
         \<and> lead_type ld = JStr ''contact_form''"
proof -
  have m: "m \<noteq> []" using assms(6) by (rule emailRegex_test_not_Nil)
  have "\<exists>ld. leadData e b = Inr ld"
    using assms(1,3,5,7,9,10) by (intro leadData_ok) simp_all
  then obtain ld where ld: "leadData e b = Inr ld" ..
  have "submit_lead e b f =
           ((200, SubmitBody True ''Lead submitted successfully'' (Some (lead_id ld))),
            LeadArray (leads @ [ld]))"
    using assms(1-8) m ld assms(12,13) list_leads_existing [OF assms(14)]
    by (intro submit_lead_stores [where s = m]) simp_all
  then show ?thesis
    using leadData_fields(2-4) [OF ld] assms(9-11) by (intro exI [of _ ld]) simp
qed

theorem submit_defaults_when_omitted_witness:
  "\<exists>ld. snd (submit_lead demo_env demo_form Unreadable) = LeadArray ([] @ [ld])
         \<and> lead_message ld = JStr ''No additional message provided''
         \<and> lead_requirement ld = JStr ''General inquiry''
         \<and> lead_type ld = JStr ''contact_form''"
  by (rule submit_defaults_when_omitted [where n = "''A''" and p = "''123''" and m = "''a@b.com''" and c = "''X''"])
     (simp_all add: demo_form_def demo_env_def list_leads_def emailRegex_test_example)

text \<open>
  Claim C10. The defaults are chosen on falsiness, not on absence: a message, requirement
  or type that is absent, null or the empty string gets the same default, and a type
  that is truthy is stored as it was sent, untrimmed.
\<close>

theorem submit_defaults_when_falsy:
  assumes "name b = JStr n" and "n \<noteq> []"
    and "phone b = JStr p" and "p \<noteq> []"
    and "email b = JStr m" and "emailRegex_test m"
    and "company b = JStr c" and "c \<noteq> []"
    and "\<not> truthy (message b) \<or> (\<exists>s. message b = JStr s)"
    and "\<not> truthy (requirement b) \<or> (\<exists>s. requirement b = JStr s)"
    and "mkdir_ok e" and "write_ok e"
    and "list_leads f = (200, LeadsJson leads)"
  shows "\<exists>ld. snd (submit_lead e b f) = LeadArray (leads @ [ld])
         \<and> (\<not> truthy (message b) \<longrightarrow> lead_message ld = JStr ''No additional message provided'')
         \<and> (\<not> truthy (requirement b) \<longrightarrow> lead_requirement ld = JStr ''General inquiry'')
         \<and> (\<not> truthy (type_tag b) \<longrightarrow> lead_type ld = JStr ''contact_form'')
         \<and> (truthy (type_tag b) \<longrightarrow> lead_type ld = type_tag b)"
proof -
  have m: "m \<noteq> []" using assms(6) by (rule emailRegex_test_not_Nil)
  from leadData_ok [OF assms(1,3,5,7,9,10)] obtain ld where ld: "leadData e b = Inr ld" ..
  have "submit_lead e b f =
           ((200, SubmitBody True ''Lead submitted successfully'' (Some (lead_id ld))),
            LeadArray (leads @ [ld]))"
    using assms(1-8) m ld assms(11,12) list_leads_existing [OF assms(13)]
    by (intro submit_lead_stores [where s = m]) simp_all
  then show ?thesis
    using leadData_fields(2-4) [OF ld] by (intro exI [of _ ld]) simp
qed

theorem submit_defaults_when_falsy_witness:
  "(\<exists>ld. snd (submit_lead demo_env
             (demo_form \<lparr> message := JStr [], requirement := JStr [], type_tag := JStr [] \<rparr>)
             Unreadable) = LeadArray ([] @ [ld])
         \<and> lead_message ld = JStr ''No additional message provided''
         \<and> lead_requirement ld = JStr ''General inquiry''
         \<and> lead_type ld = JStr ''contact_form'')
   \<and> (\<exists>ld. snd (submit_lead demo_env
             (demo_form \<lparr> message := JNull, type_tag := JStr '' web '' \<rparr>)
             Unreadable) = LeadArray ([] @ [ld])
         \<and> lead_message ld = JStr ''No additional message provided''
         \<and> lead_requirement ld = JStr ''General inquiry''
         \<and> lead_type ld = JStr '' web '')"
  using submit_defaults_when_falsy [where n = "''A''" and p = "''123''" and m = "''a@b.com''" and c = "''X''"
      and e = demo_env and f = Unreadable and leads = "[]"
      and b = "demo_form \<lparr> message := JStr [], requirement := JStr [], type_tag := JStr [] \<rparr>"]
    submit_defaults_when_falsy [where n = "''A''" and p = "''123''" and m = "''a@b.com''" and c = "''X''"
      and e = demo_env and f = Unreadable and leads = "[]"
      and b = "demo_form \<lparr> message := JNull, type_tag := JStr '' web '' \<rparr>"]
  by (simp add: demo_form_def demo_env_def list_leads_def emailRegex_test_example)

section \<open>Uniqueness of ids\<close>

lemma submit_lead_200:
  assumes "submit_lead e b f = ((200, body), f')"
  shows "\<exists>leads ld. existing_leads f = Some leads \<and> leadData e b = Inr ld \<and> f' = LeadArray (leads @ [ld])"
  using assms
  by (auto simp: submit_lead_def missing_fields_def invalid_email_def internal_error_def
      split: if_splits sum.splits option.splits)

lemma existing_leads_LeadArray: "existing_leads (LeadArray ls) = Some ls"
  by (simp add: existing_leads_def)

lemma submit_all_ids:
  assumes "submit_all ops f = (ss, f')" and "\<forall>s \<in> set ss. s = 200"
    and "existing_leads f = Some old"
  shows "\<exists>new. existing_leads f' = Some (old @ new)
           \<and> map lead_id new = map (\<lambda>op. JStr (number_toString (now (fst op)))) ops"
  using assms
proof (induction ops arbitrary: f ss old f')
  case Nil
  then show ?case by simp
next
  case (Cons op rest)
  obtain e b where op: "op = (e, b)" by (cases op)
  obtain status body f1 where step: "submit_lead e b f = ((status, body), f1)"
    by (metis prod.exhaust)
  obtain ss1 f2 where rest: "submit_all rest f1 = (ss1, f2)"
    by (metis prod.exhaust)
  from Cons.prems(1) op step rest have ss: "ss = status # ss1" and f': "f' = f2"
    by simp_all
  from Cons.prems(2) ss have status: "status = 200" and all: "\<forall>s \<in> set ss1. s = 200"
    by simp_all
  from submit_lead_200 [OF step [unfolded status]] Cons.prems(3)
  obtain ld where ld: "leadData e b = Inr ld" and f1: "f1 = LeadArray (old @ [ld])"
    by auto
  from Cons.IH [OF rest all, of "old @ [ld]"] f1
  obtain new where new: "existing_leads f2 = Some ((old @ [ld]) @ new)"
    and ids: "map lead_id new = map (\<lambda>op. JStr (number_toString (now (fst op)))) rest"
    by (auto simp: existing_leads_LeadArray)
  show ?case
    using new ids leadData_fields(1) [OF ld] op f'
    by (intro exI [of _ "ld # new"]) simp
qed

lemma demo_lead_company:
  "leadData demo_env (demo_form \<lparr> company := JStr ''Y'' \<rparr>) = Inr
     \<lparr> lead_id = JStr ''1700000000000'', lead_name = JStr ''A'', lead_phone = JStr ''123'',
       lead_email = JStr ''a@b.com'', lead_company = JStr ''Y'',
       lead_message = JStr ''No additional message provided'',
       lead_requirement = JStr ''General inquiry'', lead_type = JStr ''contact_form'',
       lead_submittedAt = JStr ''2023-11-14T22:13:20.000Z'', lead_ip = JStr ''127.0.0.1'' \<rparr>"
  by (simp add: leadData_def and_then_def demo_env_def demo_form_def trim_def is_space_def
      toLowerCase_def lower_char_def number_toString_def digits.simps digit_def char_of_def bit_0)

lemma demo_submit:
  "submit_lead demo_env demo_form Unreadable =
     ((200, SubmitBody True ''Lead submitted successfully'' (Some (JStr ''1700000000000''))),
      LeadArray [\<lparr> lead_id = JStr ''1700000000000'', lead_name = JStr ''A'', lead_phone = JStr ''123'',
       lead_email = JStr ''a@b.com'', lead_company = JStr ''X'',
       lead_message = JStr ''No additional message provided'',
       lead_requirement = JStr ''General inquiry'', lead_type = JStr ''contact_form'',
       lead_submittedAt = JStr ''2023-11-14T22:13:20.000Z'', lead_ip = JStr ''127.0.0.1'' \<rparr>])"
  using submit_lead_stores [where s = "''a@b.com''" and e = demo_env and b = demo_form
      and f = Unreadable and leads = "[]", OF _ _ _ _ _ emailRegex_test_example demo_lead]
  by (simp add: demo_form_def demo_env_def existing_leads_def)

lemma demo_lead_later:
  "leadData (demo_env \<lparr> now := 1700000000001 \<rparr>) demo_form = Inr
     \<lparr> lead_id = JStr ''1700000000001'', lead_name = JStr ''A'', lead_phone = JStr ''123'',
       lead_email = JStr ''a@b.com'', lead_company = JStr ''X'',
       lead_message = JStr ''No additional message provided'',
       lead_requirement = JStr ''General inquiry'', lead_type = JStr ''contact_form'',
       lead_submittedAt = JStr ''2023-11-14T22:13:20.000Z'', lead_ip = JStr ''127.0.0.1'' \<rparr>"
  by (simp add: leadData_def and_then_def demo_env_def demo_form_def trim_def is_space_def
      toLowerCase_def lower_char_def number_toString_def digits.simps digit_def char_of_def bit_0)

lemma demo_submit_later:
  "submit_all [(demo_env, demo_form), (demo_env \<lparr> now := 1700000000001 \<rparr>, demo_form)] Unreadable =
     ([200, 200],
      LeadArray [
       \<lparr> lead_id = JStr ''1700000000000'', lead_name = JStr ''A'', lead_phone = JStr ''123'',
         lead_email = JStr ''a@b.com'', lead_company = JStr ''X'',
         lead_message = JStr ''No additional message provided'',
         lead_requirement = JStr ''General inquiry'', lead_type = JStr ''contact_form'',
         lead_submittedAt = JStr ''2023-11-14T22:13:20.000Z'', lead_ip = JStr ''127.0.0.1'' \<rparr>,
       \<lparr> lead_id = JStr ''1700000000001'', lead_name = JStr ''A'', lead_phone = JStr ''123'',
         lead_email = JStr ''a@b.com'', lead_company = JStr ''X'',
         lead_message = JStr ''No additional message provided'',
         lead_requirement = JStr ''General inquiry'', lead_type = JStr ''contact_form'',
         lead_submittedAt = JStr ''2023-11-14T22:13:20.000Z'', lead_ip = JStr ''127.0.0.1'' \<rparr>])"
proof -
  let ?l1 = "\<lparr> lead_id = JStr ''1700000000000'', lead_name = JStr ''A'', lead_phone = JStr ''123'',
         lead_email = JStr ''a@b.com'', lead_company = JStr ''X'',
         lead_message = JStr ''No additional message provided'',
         lead_requirement = JStr ''General inquiry'', lead_type = JStr ''contact_form'',
         lead_submittedAt = JStr ''2023-11-14T22:13:20.000Z'', lead_ip = JStr ''127.0.0.1'' \<rparr>"
  have second: "submit_lead (demo_env \<lparr> now := 1700000000001 \<rparr>) demo_form (LeadArray [?l1]) =
     ((200, SubmitBody True ''Lead submitted successfully'' (Some (JStr ''1700000000001''))),
      LeadArray [?l1, ?l1 \<lparr> lead_id := JStr ''1700000000001'' \<rparr>])"
    using submit_lead_stores [where s = "''a@b.com''" and e = "demo_env \<lparr> now := 1700000000001 \<rparr>"
      and b = demo_form
      and f = "LeadArray [?l1]" and leads = "[?l1]", OF _ _ _ _ _ emailRegex_test_example demo_lead_later]
    by (simp add: demo_form_def demo_env_def existing_leads_def)
  show ?thesis
    by (simp add: demo_submit second)
qed

text \<open>
  Claim C8, as amended. The id is \<^verbatim>\<open>Date.now()\<close> in decimal, and nothing else tells two
  leads apart: the ids of the store are pairwise distinct after a sequence of
  successful submissions when the clock readings of those submissions are pairwise
  distinct, and the store before held distinct ids, none of them the rendering of one
  of those readings.
\<close>

theorem ids_unique_when_clock_distinct:
  assumes "submit_all ops f = (ss, f')" and "\<forall>s \<in> set ss. s = 200"
    and "distinct (map (\<lambda>op. now (fst op)) ops)"
    and "existing_leads f = Some old" and "distinct (map lead_id old)"
    and "\<forall>op \<in> set ops. JStr (number_toString (now (fst op))) \<notin> lead_id ` set old"
  shows "\<exists>stored. existing_leads f' = Some stored \<and> distinct (map lead_id stored)"
proof -
  from submit_all_ids [OF assms(1,2,4)]
  obtain new where stored: "existing_leads f' = Some (old @ new)"
    and ids: "map lead_id new = map (\<lambda>op. JStr (number_toString (now (fst op)))) ops"
    by blast
  have "inj_on (\<lambda>i. JStr (number_toString i)) (set (map (\<lambda>op. now (fst op)) ops))"
    by (rule inj_onI) (auto dest: number_toString_inj)
  with assms(3)
  have "distinct (map (\<lambda>i. JStr (number_toString i)) (map (\<lambda>op. now (fst op)) ops))"
    by (simp only: distinct_map simp_thms)
  then have d: "distinct (map lead_id new)"
    by (simp add: ids comp_def)
  have "set (map lead_id old) \<inter> set (map lead_id new) = {}"
  proof (rule ccontr)
    assume "set (map lead_id old) \<inter> set (map lead_id new) \<noteq> {}"
    then obtain x where old: "x \<in> set (map lead_id old)" and new: "x \<in> set (map lead_id new)"
      by blast
    from new obtain op where "op \<in> set ops" and "x = JStr (number_toString (now (fst op)))"
      unfolding ids by auto
    with assms(6) old show False by simp
  qed
  with d assms(5) have "distinct (map lead_id (old @ new))"
    by simp
  with stored show ?thesis by blast
qed

theorem ids_unique_when_clock_distinct_witness:
  "\<exists>stored.
     existing_leads
       (snd (submit_all [(demo_env, demo_form), (demo_env \<lparr> now := 1700000000001 \<rparr>, demo_form)]
              Unreadable)) = Some stored
     \<and> distinct (map lead_id stored)"
proof -
  have ok: "\<forall>s \<in> set [200, 200 :: nat]. s = 200" by simp
  have clock: "distinct (map (\<lambda>op. now (fst op))
      [(demo_env, demo_form), (demo_env \<lparr> now := 1700000000001 \<rparr>, demo_form)])"
    by (simp add: demo_env_def)
  have empty: "existing_leads Unreadable = Some []" by (simp add: existing_leads_def)
  have fresh: "\<forall>op \<in> set [(demo_env, demo_form), (demo_env \<lparr> now := 1700000000001 \<rparr>, demo_form)].
      JStr (number_toString (now (fst op))) \<notin> lead_id ` set []"
    by simp
  have none: "distinct (map lead_id ([] :: lead list))" by simp
  from ids_unique_when_clock_distinct [OF demo_submit_later ok clock empty none fresh]
  show ?thesis by (simp only: demo_submit_later snd_conv)
qed

text \<open>
  The claim C8 as it is written fails when two submissions read the same millisecond
  from the clock: both are answered with status 200, both are stored, and the two stored
  leads carry the same id.
\<close>

theorem same_millisecond_same_id:
  "submit_all [(demo_env, demo_form), (demo_env, demo_form \<lparr> company := JStr ''Y'' \<rparr>)] Unreadable =
     ([200, 200],
      LeadArray [
       \<lparr> lead_id = JStr ''1700000000000'', lead_name = JStr ''A'', lead_phone = JStr ''123'',
         lead_email = JStr ''a@b.com'', lead_company = JStr ''X'',
         lead_message = JStr ''No additional message provided'',
         lead_requirement = JStr ''General inquiry'', lead_type = JStr ''contact_form'',
         lead_submittedAt = JStr ''2023-11-14T22:13:20.000Z'', lead_ip = JStr ''127.0.0.1'' \<rparr>,
       \<lparr> lead_id = JStr ''1700000000000'', lead_name = JStr ''A'', lead_phone = JStr ''123'',
         lead_email = JStr ''a@b.com'', lead_company = JStr ''Y'',
         lead_message = JStr ''No additional message provided'',
         lead_requirement = JStr ''General inquiry'', lead_type = JStr ''contact_form'',
         lead_submittedAt = JStr ''2023-11-14T22:13:20.000Z'', lead_ip = JStr ''127.0.0.1'' \<rparr>])"
proof -
  let ?l1 = "\<lparr> lead_id = JStr ''1700000000000'', lead_name = JStr ''A'', lead_phone = JStr ''123'',
         lead_email = JStr ''a@b.com'', lead_company = JStr ''X'',
         lead_message = JStr ''No additional message provided'',
         lead_requirement = JStr ''General inquiry'', lead_type = JStr ''contact_form'',
         lead_submittedAt = JStr ''2023-11-14T22:13:20.000Z'', lead_ip = JStr ''127.0.0.1'' \<rparr>"
  have second: "submit_lead demo_env (demo_form \<lparr> company := JStr ''Y'' \<rparr>) (LeadArray [?l1]) =
     ((200, SubmitBody True ''Lead submitted successfully'' (Some (JStr ''1700000000000''))),
      LeadArray [?l1, ?l1 \<lparr> lead_company := JStr ''Y'' \<rparr>])"
    using submit_lead_stores [where s = "''a@b.com''" and e = demo_env
      and b = "demo_form \<lparr> company := JStr ''Y'' \<rparr>"
      and f = "LeadArray [?l1]" and leads = "[?l1]", OF _ _ _ _ _ emailRegex_test_example demo_lead_company]
    by (simp add: demo_form_def demo_env_def existing_leads_def)
  show ?thesis
    by (simp add: demo_submit second)
qed

section \<open>Reading the leads: the list and the statistics\<close>

text \<open>
  Claim C6. When reading the leads file throws (it is absent or unreadable) or parsing
  it throws, the list handler answers with status 200 and the empty array, and the
  statistics handler with status 200 and \<open>totalLeads\<close> 0, \<open>todayLeads\<close> 0 and an empty
  \<open>serviceRequests\<close>: the error is not passed on.
\<close>

theorem read_failure_fails_open:
  assumes "readFile_parse f = Inl err"
  shows "list_leads f = (200, LeadsJson []) \<and> stats today f = (200, Stats 0 0 [])"
  using assms by (simp add: list_leads_def stats_def zero_stats_def)

theorem read_failure_fails_open_witness:
  "list_leads Unreadable = (200, LeadsJson []) \<and> stats (\<lambda>v. Inr False) Unreadable = (200, Stats 0 0 [])
   \<and> list_leads Unparsable = (200, LeadsJson []) \<and> stats (\<lambda>v. Inr False) Unparsable = (200, Stats 0 0 [])"
  using read_failure_fails_open [of Unreadable IOError "\<lambda>v. Inr False"]
    read_failure_fails_open [of Unparsable SyntaxError "\<lambda>v. Inr False"]
  by simp

text \<open>
  The statistics of the specification's example: requirements \<^verbatim>\<open>Cloud\<close>, \<^verbatim>\<open>Cloud\<close>, the
  empty string and \<^verbatim>\<open>AI\<close>.
\<close>

lemma stats_example:
  "stats (\<lambda>v. Inr False)
     (LeadArray [lead_with_requirement (JStr ''Cloud''), lead_with_requirement (JStr ''Cloud''),
                 lead_with_requirement (JStr []), lead_with_requirement (JStr ''AI'')]) =
   (200, Stats 4 0 [(''Cloud'', Count 2), (''General Inquiry'', Count 1), (''AI'', Count 1)])"
  by (simp add: stats_def lead_with_requirement_def service_of_def get_prop_def set_prop_def
      object_prototype_def)

text \<open>
  Where the count is right: when no lead's requirement (or the default
  \<^verbatim>\<open>General Inquiry\<close>) names a member of \<^verbatim>\<open>Object.prototype\<close>, \<open>serviceRequests\<close> maps
  each key to the number of leads that carry it and has no other key.
\<close>

lemma count_step:
  assumes "k \<notin> set object_prototype" and "counted acc"
  shows "counted (set_prop acc k (or_zero_plus_one (get_prop acc k)))"
    and "tally (set_prop acc k (or_zero_plus_one (get_prop acc k))) j
           = tally acc j + (if j = k then 1 else 0)"
proof -
  have k: "k \<noteq> ''__proto__''"
    using assms(1) by (auto simp: object_prototype_def)
  have get: "get_prop acc k = map_of acc k"
    using assms(1) by (simp add: get_prop_def split: option.split)
  have upd: "map_of (set_prop acc k v) = (map_of acc)(k \<mapsto> v)" for v
    using k by (simp add: set_prop_def update_conv')
  show "counted (set_prop acc k (or_zero_plus_one (get_prop acc k)))"
  proof (cases "map_of acc k")
    case None
    with assms(2) show ?thesis by (simp add: counted_def upd get)
  next
    case (Some v)
    with assms(2) obtain n where "v = Count n" by (auto simp: counted_def)
    with Some assms(2) show ?thesis by (simp add: counted_def upd get)
  qed
  show "tally (set_prop acc k (or_zero_plus_one (get_prop acc k))) j
           = tally acc j + (if j = k then 1 else 0)"
  proof (cases "map_of acc k")
    case None
    then show ?thesis by (simp add: tally_def upd get)
  next
    case (Some v)
    with assms(2) obtain n where "v = Count n" by (auto simp: counted_def)
    with Some show ?thesis by (simp add: tally_def upd get)
  qed
qed

lemma serviceRequests_tally:
  assumes "\<forall>l \<in> set leads. \<exists>k. service_of l = Inr k \<and> k \<notin> set object_prototype"
    and "counted acc"
  shows "\<exists>sr. serviceRequests leads acc = Inr sr \<and> counted sr
           \<and> (\<forall>j. tally sr j = tally acc j + length (filter (\<lambda>l. service_of l = Inr j) leads))"
  using assms
proof (induction leads arbitrary: acc)
  case Nil
  then show ?case by simp
next
  case (Cons l leads)
  from Cons.prems(1) obtain k where k: "service_of l = Inr k" and p: "k \<notin> set object_prototype"
    by auto
  let ?acc = "set_prop acc k (or_zero_plus_one (get_prop acc k))"
  from Cons.prems(1) have rest: "\<forall>l \<in> set leads. \<exists>k. service_of l = Inr k \<and> k \<notin> set object_prototype"
    by simp
  from Cons.IH [OF rest count_step(1) [OF p Cons.prems(2)]]
  obtain sr where sr: "serviceRequests leads ?acc = Inr sr" and c: "counted sr"
    and t: "\<forall>j. tally sr j = tally ?acc j + length (filter (\<lambda>l. service_of l = Inr j) leads)"
    by blast
  have "tally sr j = tally acc j + length (filter (\<lambda>l. service_of l = Inr j) (l # leads))" for j
    using t count_step(2) [OF p Cons.prems(2), of j] k by auto
  with sr c k show ?case by simp
qed

lemma serviceRequests_counts:
  assumes "\<forall>l \<in> set leads. \<exists>k. service_of l = Inr k \<and> k \<notin> set object_prototype"
  shows "\<exists>sr. serviceRequests leads [] = Inr sr
           \<and> (\<forall>j. map_of sr j =
                 (if length (filter (\<lambda>l. service_of l = Inr j) leads) = 0 then None
                  else Some (Count (length (filter (\<lambda>l. service_of l = Inr j) leads)))))"
proof -
  have "counted []" by (simp add: counted_def)
  from serviceRequests_tally [OF assms this]
  obtain sr where sr: "serviceRequests leads [] = Inr sr" and c: "counted sr"
    and t: "\<forall>j. tally sr j = length (filter (\<lambda>l. service_of l = Inr j) leads)"
    by (auto simp: tally_def)
  have "map_of sr j =
                 (if length (filter (\<lambda>l. service_of l = Inr j) leads) = 0 then None
                  else Some (Count (length (filter (\<lambda>l. service_of l = Inr j) leads))))" for j
  proof (cases "map_of sr j")
    case None
    with t [rule_format, of j] show ?thesis by (simp add: tally_def)
  next
    case (Some v)
    with c obtain n where "0 < n" and "v = Count n" by (auto simp: counted_def)
    with Some t [rule_format, of j] show ?thesis by (simp add: tally_def)
  qed
  with sr show ?thesis by blast
qed

lemma demo_lead_constructor:
  "leadData demo_env (demo_form \<lparr> requirement := JStr ''constructor'' \<rparr>) = Inr
     \<lparr> lead_id = JStr ''1700000000000'', lead_name = JStr ''A'', lead_phone = JStr ''123'',
       lead_email = JStr ''a@b.com'', lead_company = JStr ''X'',
       lead_message = JStr ''No additional message provided'',
       lead_requirement = JStr ''constructor'', lead_type = JStr ''contact_form'',
       lead_submittedAt = JStr ''2023-11-14T22:13:20.000Z'', lead_ip = JStr ''127.0.0.1'' \<rparr>"
  by (simp add: leadData_def and_then_def demo_env_def demo_form_def trim_def is_space_def
      toLowerCase_def lower_char_def number_toString_def digits.simps digit_def char_of_def bit_0)

lemma demo_submit_constructor:
  "submit_lead demo_env (demo_form \<lparr> requirement := JStr ''constructor'' \<rparr>) Unreadable =
     ((200, SubmitBody True ''Lead submitted successfully'' (Some (JStr ''1700000000000''))),
      LeadArray [\<lparr> lead_id = JStr ''1700000000000'', lead_name = JStr ''A'', lead_phone = JStr ''123'',
       lead_email = JStr ''a@b.com'', lead_company = JStr ''X'',
       lead_message = JStr ''No additional message provided'',
       lead_requirement = JStr ''constructor'', lead_type = JStr ''contact_form'',
       lead_submittedAt = JStr ''2023-11-14T22:13:20.000Z'', lead_ip = JStr ''127.0.0.1'' \<rparr>])"
  using submit_lead_stores [where s = "''a@b.com''" and e = demo_env
      and b = "demo_form \<lparr> requirement := JStr ''constructor'' \<rparr>"
      and f = Unreadable and leads = "[]", OF _ _ _ _ _ emailRegex_test_example demo_lead_constructor]
  by (simp add: demo_form_def demo_env_def existing_leads_def)

text \<open>
  Claim C4. The statistics are to give, for every collection of leads, the number of
  leads and for each requirement the number of leads that carry it. The handler counts
  in a plain object, so a requirement that names a member of \<^verbatim>\<open>Object.prototype\<close> is not
  counted: after one accepted submission with the requirement \<^verbatim>\<open>constructor\<close>, the
  entry under that key is a string (the text of the inherited function with \<^verbatim>\<open>1\<close>
  appended), where the claim has the number 1.
\<close>

theorem stats_inherited_key_not_counted:
  "stats (\<lambda>v. Inr True)
     (snd (submit_lead demo_env (demo_form \<lparr> requirement := JStr ''constructor'' \<rparr>) Unreadable)) =
   (200, Stats 1 1 [(''constructor'', Text ''function Object() { [native code] }1'')])"
  by (simp add: demo_submit_constructor stats_def service_of_def get_prop_def set_prop_def
      object_prototype_def builtin_text_def)

theorem stats_inherited_key_not_counted_witness:
  "stats (\<lambda>v. Inr True)
     (snd (submit_lead demo_env (demo_form \<lparr> requirement := JStr ''constructor'' \<rparr>) Unreadable)) \<noteq>
   (200, Stats 1 1 [(''constructor'', Count 1)])"
  using stats_inherited_key_not_counted by simp

end
